theory Spec2Isabelle
  imports Main "HOL-Library.Word"
begin

section \<open>The transaction throttler of go/vt/vttablet/tabletserver/txthrottler\<close>

text \<open>
  A shallow embedding of \<^verbatim>\<open>tx_throttler.go\<close>. Every method of \<^verbatim>\<open>TxThrottler\<close> is a
  function that takes the receiver and the world it acts on and returns them updated.
  A Go panic is the left injection of the result, a returned \<^verbatim>\<open>error\<close> is a value.
  The objects built by the three factory variables (the wrapped throttler, the health
  check, the topology watchers), the contexts, the goroutines and the log are kept in
  tables of the world; a pointer to such an object is its index in the table.
\<close>

subsection \<open>Values\<close>

type_synonym time = nat
type_synonym addr = nat
type_synonym topo_Server = nat

datatype error = ExternalError string | EmptyHealthCheckCells

datatype panic = NilPointerDereference | Panic string

text \<open>
  Modelled from the spec: \<^verbatim>\<open>topodatapb.TabletType\<close> is declared in package topodata,
  not in \<^verbatim>\<open>tx_throttler.go\<close>; the roles are \<^verbatim>\<open>PRIMARY | REPLICA | RDONLY | other\<close>.
\<close>

datatype TabletType = PRIMARY | REPLICA | RDONLY | OTHER

text \<open>\<^verbatim>\<open>querypb.Target\<close>, with the fields the throttler reads.\<close>

record querypb_Target =
  Keyspace :: string
  Shard :: string
  TabletType :: TabletType
  Cell :: string

text \<open>
  Modelled from the spec: \<^verbatim>\<open>discovery.TabletHealth\<close> is declared in package discovery,
  not in \<^verbatim>\<open>tx_throttler.go\<close>. An event carries the tablet identity (cell, uid), the target (a pointer, so
  it may be nil) with the role in it, and the replication lag in seconds.
\<close>

record TabletHealth =
  tablet_cell :: string
  tablet_uid :: "32 word"
  Target :: "querypb_Target option"
  ReplicationLagSeconds :: "32 word"

text \<open>\<^verbatim>\<open>throttlerdatapb.Configuration\<close>: the one field this file reads.\<close>

record Configuration =
  MaxReplicationLagSec :: "64 word"

text \<open>The fields of \<^verbatim>\<open>tabletenv.TabletConfig\<close> that \<^verbatim>\<open>tryCreateTxThrottler\<close> reads.\<close>

record TabletConfig =
  EnableTxThrottler :: bool
  TxThrottlerConfig :: string
  TxThrottlerHealthCheckCells :: "string list"

record txThrottlerConfig =
  enabled :: bool
  topoServer :: "topo_Server option"
  throttlerConfig :: "Configuration option"
  healthCheckCells :: "string list"

text \<open>
  \<^verbatim>\<open>txThrottlerState\<close>. The mutex \<^verbatim>\<open>throttleMu\<close> only serialises callers and has no
  field here. Interface values and the cancel function are nil until they are set.
\<close>

record txThrottlerState =
  throttler :: "nat option"
  stopHealthCheck :: "nat option"
  healthCheck :: "nat option"
  topologyWatchers :: "nat list"

text \<open>
  \<^verbatim>\<open>TxThrottler\<close>. \<^verbatim>\<open>config\<close> is never nil and never written after construction, so it
  is held by value; \<^verbatim>\<open>state\<close> is nil when closed; \<^verbatim>\<open>target\<close> is a pointer into the heap
  of protobuf messages.
\<close>

record TxThrottler =
  config :: txThrottlerConfig
  state :: "txThrottlerState option"
  target :: "addr option"

subsection \<open>The world\<close>

record throttler_obj =
  th_name :: string
  th_unit :: string
  th_threadCount :: int
  th_maxRate :: "64 word"
  th_maxReplicationLag :: "64 word"
  th_configuration :: "(Configuration \<times> bool) option"
  th_lag_records :: "(time \<times> TabletHealth) list"
  th_throttle_calls :: "int list"
  th_closed :: bool

record healthCheck_obj =
  hc_topoServer :: "topo_Server option"
  hc_cell :: string
  hc_cellsToWatch :: "string list"
  hc_subscribers :: nat
  hc_closed :: bool

record watcher_obj =
  tw_topoServer :: "topo_Server option"
  tw_healthCheck :: "nat option"
  tw_cell :: string
  tw_keyspace :: string
  tw_shard :: string
  tw_started :: bool
  tw_stopped :: bool

text \<open>The goroutine spawned by \<^verbatim>\<open>createTxThrottlerHealthCheck\<close>: its context and the
  health check whose subscription channel it reads.\<close>

record goroutine =
  g_ctx :: nat
  g_healthCheck :: "nat option"

datatype log_entry =
  LogErrorf string error
  | LogInfof string txThrottlerConfig
  | LogInfo string

record world =
  heap :: "addr \<Rightarrow> querypb_Target"
  next_addr :: addr
  throttlers :: "throttler_obj list"
  healthChecks :: "healthCheck_obj list"
  watchers :: "watcher_obj list"
  contexts :: "bool list"
  goroutines :: "goroutine list"
  logs :: "log_entry list"

text \<open>What the environment answers to one call of \<^verbatim>\<open>Open\<close>: whether
  \<^verbatim>\<open>throttlerFactory\<close> and \<^verbatim>\<open>UpdateConfiguration\<close> return an error.\<close>

record env =
  throttlerFactory_err :: "error option"
  UpdateConfiguration_err :: "error option"

definition update_at :: "nat \<Rightarrow> ('a \<Rightarrow> 'a) \<Rightarrow> 'a list \<Rightarrow> 'a list" where
  "update_at i f xs = (if i < length xs then xs[i := f (xs ! i)] else xs)"

definition add_log :: "log_entry \<Rightarrow> world \<Rightarrow> world" where
  "add_log l w = w\<lparr>logs := logs w @ [l]\<rparr>"

text \<open>
  Modelled from the spec: the sentinel ``disabled'' max rate of the rate limiter,
  \<^verbatim>\<open>throttler.MaxRateModuleDisabled\<close>, declared in package throttler (the largest int64).
\<close>

definition MaxRateModuleDisabled :: "64 word" where
  "MaxRateModuleDisabled = 0x7FFFFFFFFFFFFFFF"

definition TxThrottlerName :: string where
  "TxThrottlerName = ''TransactionThrottler''"

subsection \<open>The factories and the methods of the objects they build\<close>

definition throttlerFactory ::
  "env \<Rightarrow> string \<Rightarrow> string \<Rightarrow> int \<Rightarrow> 64 word \<Rightarrow> 64 word \<Rightarrow> world \<Rightarrow> (error + nat) \<times> world" where
  "throttlerFactory e name unit threadCount maxRate maxReplicationLag w =
     (case throttlerFactory_err e of
        Some err \<Rightarrow> (Inl err, w)
      | None \<Rightarrow>
          (Inr (length (throttlers w)),
           w\<lparr>throttlers := throttlers w @
              [\<lparr>th_name = name, th_unit = unit, th_threadCount = threadCount,
                th_maxRate = maxRate, th_maxReplicationLag = maxReplicationLag,
                th_configuration = None, th_lag_records = [], th_throttle_calls = [],
                th_closed = False\<rparr>]\<rparr>))"

definition UpdateConfiguration ::
  "env \<Rightarrow> nat \<Rightarrow> Configuration \<Rightarrow> bool \<Rightarrow> world \<Rightarrow> error option \<times> world" where
  "UpdateConfiguration e t configuration copyZeroValues w =
     (case UpdateConfiguration_err e of
        Some err \<Rightarrow> (Some err, w)
      | None \<Rightarrow>
          (None,
           w\<lparr>throttlers := update_at t
                (\<lambda>x. x\<lparr>th_configuration := Some (configuration, copyZeroValues)\<rparr>)
                (throttlers w)\<rparr>))"

definition throttler_Close :: "nat \<Rightarrow> world \<Rightarrow> world" where
  "throttler_Close t w =
     w\<lparr>throttlers := update_at t (\<lambda>x. x\<lparr>th_closed := True\<rparr>) (throttlers w)\<rparr>"

definition RecordReplicationLag :: "nat \<Rightarrow> time \<Rightarrow> TabletHealth \<Rightarrow> world \<Rightarrow> world" where
  "RecordReplicationLag t now th w =
     w\<lparr>throttlers := update_at t
          (\<lambda>x. x\<lparr>th_lag_records := th_lag_records x @ [(now, th)]\<rparr>) (throttlers w)\<rparr>"

definition throttler_Throttle :: "nat \<Rightarrow> int \<Rightarrow> world \<Rightarrow> world" where
  "throttler_Throttle t threadID w =
     w\<lparr>throttlers := update_at t
          (\<lambda>x. x\<lparr>th_throttle_calls := th_throttle_calls x @ [threadID]\<rparr>) (throttlers w)\<rparr>"

definition healthCheckFactory ::
  "topo_Server option \<Rightarrow> string \<Rightarrow> string list \<Rightarrow> world \<Rightarrow> nat \<times> world" where
  "healthCheckFactory ts cell cellsToWatch w =
     (length (healthChecks w),
      w\<lparr>healthChecks := healthChecks w @
         [\<lparr>hc_topoServer = ts, hc_cell = cell, hc_cellsToWatch = cellsToWatch,
           hc_subscribers = 0, hc_closed = False\<rparr>]\<rparr>)"

definition healthCheck_Subscribe :: "nat \<Rightarrow> world \<Rightarrow> world" where
  "healthCheck_Subscribe h w =
     w\<lparr>healthChecks := update_at h
          (\<lambda>x. x\<lparr>hc_subscribers := Suc (hc_subscribers x)\<rparr>) (healthChecks w)\<rparr>"

definition healthCheck_Close :: "nat \<Rightarrow> world \<Rightarrow> world" where
  "healthCheck_Close h w =
     w\<lparr>healthChecks := update_at h (\<lambda>x. x\<lparr>hc_closed := True\<rparr>) (healthChecks w)\<rparr>"

text \<open>The watcher records the arguments of the call. The factory that
  \<^verbatim>\<open>resetTxThrottlerFactories\<close> installs builds a watcher filtered by the keyspace alone
  and makes no use of \<^verbatim>\<open>shard\<close>; nothing in this file calls \<^verbatim>\<open>Start\<close>.\<close>

definition topologyWatcherFactory ::
  "topo_Server option \<Rightarrow> nat option \<Rightarrow> string \<Rightarrow> string \<Rightarrow> string \<Rightarrow> world \<Rightarrow> nat \<times> world" where
  "topologyWatcherFactory ts hc cell keyspace shard w =
     (length (watchers w),
      w\<lparr>watchers := watchers w @
         [\<lparr>tw_topoServer = ts, tw_healthCheck = hc, tw_cell = cell,
           tw_keyspace = keyspace, tw_shard = shard,
           tw_started = False, tw_stopped = False\<rparr>]\<rparr>)"

definition watcher_Stop :: "nat \<Rightarrow> world \<Rightarrow> world" where
  "watcher_Stop i w =
     w\<lparr>watchers := update_at i (\<lambda>x. x\<lparr>tw_stopped := True\<rparr>) (watchers w)\<rparr>"

text \<open>\<^verbatim>\<open>context.WithCancel\<close>: a new context, not cancelled; its cancel function is
  named by the index of the context.\<close>

definition context_WithCancel :: "world \<Rightarrow> nat \<times> world" where
  "context_WithCancel w = (length (contexts w), w\<lparr>contexts := contexts w @ [False]\<rparr>)"

definition context_cancel :: "nat \<Rightarrow> world \<Rightarrow> world" where
  "context_cancel c w = w\<lparr>contexts := update_at c (\<lambda>_. True) (contexts w)\<rparr>"

definition go :: "goroutine \<Rightarrow> world \<Rightarrow> world" where
  "go g w = w\<lparr>goroutines := goroutines w @ [g]\<rparr>"

text \<open>
  Modelled from the spec: \<^verbatim>\<open>proto.Clone\<close> belongs to the protobuf library; the target is
  ``cloned defensively on store''. The clone of a message is a new message at a fresh
  address with the same fields; the clone of nil is nil.
\<close>

definition proto_Clone :: "addr option \<Rightarrow> world \<Rightarrow> addr option \<times> world" where
  "proto_Clone p w =
     (case p of
        None \<Rightarrow> (None, w)
      | Some a \<Rightarrow>
          (Some (next_addr w),
           w\<lparr>heap := (heap w)(next_addr w := heap w a), next_addr := Suc (next_addr w)\<rparr>))"

text \<open>A write of the caller through its own pointer.\<close>

definition store :: "addr \<Rightarrow> querypb_Target \<Rightarrow> world \<Rightarrow> world" where
  "store a v w = w\<lparr>heap := (heap w)(a := v)\<rparr>"

subsection \<open>Construction\<close>

definition disabled_config :: txThrottlerConfig where
  "disabled_config =
     \<lparr>enabled = False, topoServer = None, throttlerConfig = None, healthCheckCells = []\<rparr>"

text \<open>\<^verbatim>\<open>Verify\<close> of \<^verbatim>\<open>throttler.MaxReplicationLagModuleConfig\<close> and \<^verbatim>\<open>prototext.Unmarshal\<close>
  belong to other packages and are parameters.\<close>

definition newTxThrottler ::
  "(Configuration option \<Rightarrow> error option) \<Rightarrow> txThrottlerConfig \<Rightarrow> error + TxThrottler" where
  "newTxThrottler Verify c =
     (if enabled c then
        (case Verify (throttlerConfig c) of
           Some err \<Rightarrow> Inl err
         | None \<Rightarrow>
             if length (healthCheckCells c) = 0 then Inl EmptyHealthCheckCells
             else Inr \<lparr>config = c, state = None, target = None\<rparr>)
      else Inr \<lparr>config = c, state = None, target = None\<rparr>)"

definition tryCreateTxThrottler ::
  "(string \<Rightarrow> error + Configuration) \<Rightarrow> (Configuration option \<Rightarrow> error option) \<Rightarrow>
   TabletConfig \<Rightarrow> topo_Server option \<Rightarrow> error + TxThrottler" where
  "tryCreateTxThrottler Unmarshal Verify tc ts =
     (if \<not> EnableTxThrottler tc then newTxThrottler Verify disabled_config
      else
        (case Unmarshal (TxThrottlerConfig tc) of
           Inl err \<Rightarrow> Inl err
         | Inr throttlerConfig' \<Rightarrow>
             newTxThrottler Verify
               \<lparr>enabled = True, topoServer = ts, throttlerConfig = Some throttlerConfig',
                healthCheckCells = TxThrottlerHealthCheckCells tc\<rparr>))"

definition NewTxThrottler ::
  "(string \<Rightarrow> error + Configuration) \<Rightarrow> (Configuration option \<Rightarrow> error option) \<Rightarrow>
   TabletConfig \<Rightarrow> topo_Server option \<Rightarrow> world \<Rightarrow> panic + (TxThrottler \<times> world)" where
  "NewTxThrottler Unmarshal Verify tc ts w =
     (case tryCreateTxThrottler Unmarshal Verify tc ts of
        Inl err \<Rightarrow>
          (let w1 = add_log (LogErrorf
                 ''Error creating transaction throttler. Transaction throttling will be disabled. Error: ''
                 err) w
           in case newTxThrottler Verify disabled_config of
                Inl err' \<Rightarrow> Inl (Panic ''BUG: Can't create a disabled transaction throttler'')
              | Inr txThrottler \<Rightarrow> Inr (txThrottler, w1))
      | Inr txThrottler \<Rightarrow>
          Inr (txThrottler,
               add_log (LogInfof ''Initialized transaction throttler with config: ''
                          (config txThrottler)) w))"

definition InitDBConfig :: "addr option \<Rightarrow> TxThrottler \<Rightarrow> world \<Rightarrow> TxThrottler \<times> world" where
  "InitDBConfig p t w = (case proto_Clone p w of (q, w') \<Rightarrow> (t\<lparr>target := q\<rparr>, w'))"

subsection \<open>Opening\<close>

definition createTxThrottlerHealthCheck ::
  "txThrottlerConfig \<Rightarrow> txThrottlerState \<Rightarrow> string \<Rightarrow> world \<Rightarrow> txThrottlerState \<times> world" where
  "createTxThrottlerHealthCheck c result cell w =
     (case context_WithCancel w of
        (ctx, w1) \<Rightarrow>
          (case healthCheckFactory (topoServer c) cell (healthCheckCells c) w1 of
             (hc, w2) \<Rightarrow>
               (result\<lparr>stopHealthCheck := Some ctx, healthCheck := Some hc\<rparr>,
                go \<lparr>g_ctx = ctx, g_healthCheck = Some hc\<rparr> (healthCheck_Subscribe hc w2))))"

text \<open>The loop over \<^verbatim>\<open>config.healthCheckCells\<close> that appends one watcher per cell.\<close>

fun make_watchers ::
  "txThrottlerConfig \<Rightarrow> txThrottlerState \<Rightarrow> string \<Rightarrow> string \<Rightarrow> string list \<Rightarrow> world \<Rightarrow>
   txThrottlerState \<times> world" where
  "make_watchers c result keyspace shard [] w = (result, w)"
| "make_watchers c result keyspace shard (cell # cells) w =
     (case topologyWatcherFactory (topoServer c) (healthCheck result) cell keyspace shard w of
        (tw, w') \<Rightarrow>
          make_watchers c (result\<lparr>topologyWatchers := topologyWatchers result @ [tw]\<rparr>)
            keyspace shard cells w')"

definition newTxThrottlerState ::
  "env \<Rightarrow> txThrottlerConfig \<Rightarrow> string \<Rightarrow> string \<Rightarrow> string \<Rightarrow> world \<Rightarrow>
   panic + ((error + txThrottlerState) \<times> world)" where
  "newTxThrottlerState e c keyspace shard cell w =
     (case throttlerConfig c of
        None \<Rightarrow> Inl NilPointerDereference
      | Some tc \<Rightarrow>
          (case throttlerFactory e TxThrottlerName ''TPS'' 1 MaxRateModuleDisabled
                  (MaxReplicationLagSec tc) w of
             (Inl err, w1) \<Rightarrow> Inr (Inl err, w1)
           | (Inr t, w1) \<Rightarrow>
               (case UpdateConfiguration e t tc True w1 of
                  (Some err, w2) \<Rightarrow> Inr (Inl err, throttler_Close t w2)
                | (None, w2) \<Rightarrow>
                    (case createTxThrottlerHealthCheck c
                            \<lparr>throttler = Some t, stopHealthCheck = None, healthCheck = None,
                             topologyWatchers = []\<rparr> cell w2 of
                       (result, w3) \<Rightarrow>
                         (case make_watchers c (result\<lparr>topologyWatchers := []\<rparr>)
                                 keyspace shard (healthCheckCells c) w3 of
                            (result', w4) \<Rightarrow> Inr (Inr result', w4))))))"

definition Open ::
  "env \<Rightarrow> TxThrottler \<Rightarrow> world \<Rightarrow> panic + (error option \<times> TxThrottler \<times> world)" where
  "Open e t w =
     (if \<not> enabled (config t) then Inr (None, t, w)
      else if state t \<noteq> None then Inr (None, t, w)
      else
        (let w1 = add_log (LogInfo ''TxThrottler: opening'') w in
         case target t of
           None \<Rightarrow> Inl NilPointerDereference
         | Some a \<Rightarrow>
             (case newTxThrottlerState e (config t)
                     (Keyspace (heap w1 a)) (Shard (heap w1 a)) (Cell (heap w1 a)) w1 of
                Inl p \<Rightarrow> Inl p
              | Inr (Inl err, w2) \<Rightarrow> Inr (Some err, t\<lparr>state := None\<rparr>, w2)
              | Inr (Inr ts, w2) \<Rightarrow> Inr (None, t\<lparr>state := Some ts\<rparr>, w2))))"

subsection \<open>Closing\<close>

fun stop_watchers :: "nat list \<Rightarrow> world \<Rightarrow> world" where
  "stop_watchers [] w = w"
| "stop_watchers (watcher # rest) w = stop_watchers rest (watcher_Stop watcher w)"

definition deallocateResources ::
  "txThrottlerState \<Rightarrow> world \<Rightarrow> panic + (txThrottlerState \<times> world)" where
  "deallocateResources ts w =
     (let w1 = stop_watchers (topologyWatchers ts) w;
          ts1 = ts\<lparr>topologyWatchers := []\<rparr>
      in case healthCheck ts1 of
           None \<Rightarrow> Inl NilPointerDereference
         | Some hc \<Rightarrow>
             (let w2 = healthCheck_Close hc w1;
                  ts2 = ts1\<lparr>healthCheck := None\<rparr>
              in case throttler ts2 of
                   None \<Rightarrow> Inl NilPointerDereference
                 | Some t \<Rightarrow> Inr (ts2\<lparr>throttler := None\<rparr>, throttler_Close t w2)))"

definition Close :: "TxThrottler \<Rightarrow> world \<Rightarrow> panic + (TxThrottler \<times> world)" where
  "Close t w =
     (if \<not> enabled (config t) then Inr (t, w)
      else
        (case state t of
           None \<Rightarrow> Inr (t, w)
         | Some ts \<Rightarrow>
             (case deallocateResources ts w of
                Inl p \<Rightarrow> Inl p
              | Inr (ts', w') \<Rightarrow>
                  Inr (t\<lparr>state := None\<rparr>, add_log (LogInfo ''TxThrottler: closed'') w'))))"

subsection \<open>Admission\<close>

text \<open>\<^verbatim>\<open>wait\<close> is the duration the wrapped throttler answers to \<^verbatim>\<open>Throttle(0)\<close>, a
  signed 64-bit number of nanoseconds.\<close>

definition throttle :: "64 word \<Rightarrow> txThrottlerState \<Rightarrow> world \<Rightarrow> panic + (bool \<times> world)" where
  "throttle wait ts w =
     (case throttler ts of
        None \<Rightarrow> Inl (Panic ''BUG: throttle called after deallocateResources was called.'')
      | Some t \<Rightarrow> Inr (0 < sint wait, throttler_Throttle t 0 w))"

definition Throttle :: "64 word \<Rightarrow> TxThrottler \<Rightarrow> world \<Rightarrow> panic + (bool \<times> world)" where
  "Throttle wait t w =
     (if \<not> enabled (config t) then Inr (False, w)
      else
        (case state t of
           None \<Rightarrow> Inl (Panic ''BUG: Throttle() called on a closed TxThrottler'')
         | Some ts \<Rightarrow> throttle wait ts w))"

subsection \<open>The health events\<close>

text \<open>\<^verbatim>\<open>now\<close> is what \<^verbatim>\<open>time.Now()\<close> returns when the event is handled.\<close>

definition StatsUpdate ::
  "txThrottlerState \<Rightarrow> time \<Rightarrow> TabletHealth option \<Rightarrow> world \<Rightarrow> panic + world" where
  "StatsUpdate ts now tabletStats w =
     (case tabletStats of
        None \<Rightarrow> Inl NilPointerDereference
      | Some th \<Rightarrow>
          (case Target th of
             None \<Rightarrow> Inl NilPointerDereference
           | Some tg \<Rightarrow>
               if TabletType tg \<noteq> REPLICA then Inr w
               else
                 (case throttler ts of
                    None \<Rightarrow> Inl NilPointerDereference
                  | Some t \<Rightarrow> Inr (RecordReplicationLag t now th w))))"

text \<open>
  The goroutine of \<^verbatim>\<open>createTxThrottlerHealthCheck\<close>, run along a schedule: each entry
  is the case its \<^verbatim>\<open>select\<close> takes, either the context being done or an event read from
  the channel (with the clock reading at that moment). The task returns only on
  \<^verbatim>\<open>ctx.Done()\<close>; at the end of the schedule it is still waiting in \<^verbatim>\<open>select\<close>.
\<close>

datatype select_case = CtxDone | Received time "TabletHealth option"

datatype task_status = Running | Returned

fun consumer ::
  "txThrottlerState \<Rightarrow> select_case list \<Rightarrow> world \<Rightarrow> panic + (task_status \<times> world)" where
  "consumer result [] w = Inr (Running, w)"
| "consumer result (CtxDone # rest) w = Inr (Returned, w)"
| "consumer result (Received now th # rest) w =
     (case StatsUpdate result now th w of
        Inl p \<Rightarrow> Inl p
      | Inr w' \<Rightarrow> consumer result rest w')"

text \<open>\<^verbatim>\<open>ctx.Done()\<close> can be taken only once the context is cancelled, so a goroutine
  whose context is not cancelled is live.\<close>

definition task_live :: "world \<Rightarrow> goroutine \<Rightarrow> bool" where
  "task_live w g = (g_ctx g < length (contexts w) \<and> \<not> contexts w ! g_ctx g)"

subsection \<open>Sequences of calls\<close>

datatype call =
  CallOpen env
  | CallClose
  | CallInitDBConfig "addr option"
  | CallThrottle "64 word"

datatype ret = RetOpen "error option" | RetClose | RetInitDBConfig | RetThrottle bool

fun run ::
  "call list \<Rightarrow> TxThrottler \<Rightarrow> world \<Rightarrow> panic + (ret list \<times> TxThrottler \<times> world)" where
  "run [] t w = Inr ([], t, w)"
| "run (CallOpen e # cs) t w =
     (case Open e t w of
        Inl p \<Rightarrow> Inl p
      | Inr (err, t', w') \<Rightarrow>
          (case run cs t' w' of
             Inl p \<Rightarrow> Inl p
           | Inr (rs, t'', w'') \<Rightarrow> Inr (RetOpen err # rs, t'', w'')))"
| "run (CallClose # cs) t w =
     (case Close t w of
        Inl p \<Rightarrow> Inl p
      | Inr (t', w') \<Rightarrow>
          (case run cs t' w' of
             Inl p \<Rightarrow> Inl p
           | Inr (rs, t'', w'') \<Rightarrow> Inr (RetClose # rs, t'', w'')))"
| "run (CallInitDBConfig p # cs) t w =
     (case InitDBConfig p t w of
        (t', w') \<Rightarrow>
          (case run cs t' w' of
             Inl p \<Rightarrow> Inl p
           | Inr (rs, t'', w'') \<Rightarrow> Inr (RetInitDBConfig # rs, t'', w'')))"
| "run (CallThrottle wait # cs) t w =
     (case Throttle wait t w of
        Inl p \<Rightarrow> Inl p
      | Inr (b, w') \<Rightarrow>
          (case run cs t w' of
             Inl p \<Rightarrow> Inl p
           | Inr (rs, t'', w'') \<Rightarrow> Inr (RetThrottle b # rs, t'', w'')))"

text \<open>Two calls in a row: the second acts on what the first leaves.\<close>

definition Open_twice ::
  "env \<Rightarrow> env \<Rightarrow> TxThrottler \<Rightarrow> world \<Rightarrow> panic + (error option \<times> TxThrottler \<times> world)" where
  "Open_twice e1 e2 t w =
     (case Open e1 t w of Inl p \<Rightarrow> Inl p | Inr (err, t', w') \<Rightarrow> Open e2 t' w')"

definition Close_twice :: "TxThrottler \<Rightarrow> world \<Rightarrow> panic + (TxThrottler \<times> world)" where
  "Close_twice t w = (case Close t w of Inl p \<Rightarrow> Inl p | Inr (t', w') \<Rightarrow> Close t' w')"

subsection \<open>Notions used by the properties\<close>

text \<open>The subordinate objects of the world: everything but the heap of targets and
  the log.\<close>

definition resources ::
  "world \<Rightarrow> throttler_obj list \<times> healthCheck_obj list \<times> watcher_obj list \<times> bool list \<times>
     goroutine list" where
  "resources w = (throttlers w, healthChecks w, watchers w, contexts w, goroutines w)"

text \<open>What each call returns on a disabled throttler.\<close>

fun disabled_ret :: "call \<Rightarrow> ret" where
  "disabled_ret (CallOpen e) = RetOpen None"
| "disabled_ret CallClose = RetClose"
| "disabled_ret (CallInitDBConfig p) = RetInitDBConfig"
| "disabled_ret (CallThrottle wait) = RetThrottle False"

definition role :: "TabletHealth \<Rightarrow> TabletType option" where
  "role th = map_option TabletType (Target th)"

definition is_replica :: "time \<times> TabletHealth \<Rightarrow> bool" where
  "is_replica e = (role (snd e) = Some REPLICA)"

definition deliveries :: "(time \<times> TabletHealth) list \<Rightarrow> select_case list" where
  "deliveries evs = map (\<lambda>e. Received (fst e) (Some (snd e))) evs"

text \<open>The world in which the throttler \<open>i\<close> has been handed the samples \<open>evs\<close>, in
  this order, and nothing else has happened.\<close>

definition with_lag_records :: "nat \<Rightarrow> (time \<times> TabletHealth) list \<Rightarrow> world \<Rightarrow> world" where
  "with_lag_records i evs w =
     w\<lparr>throttlers := update_at i (\<lambda>x. x\<lparr>th_lag_records := th_lag_records x @ evs\<rparr>)
          (throttlers w)\<rparr>"

text \<open>Between \<open>w\<close> and \<open>w'\<close> nothing was left behind: the objects of \<open>w\<close> are as they
  were, every throttler built since is closed, and no health check, watcher, context
  or goroutine was added.\<close>

definition released_since :: "world \<Rightarrow> world \<Rightarrow> bool" where
  "released_since w w' =
     (take (length (throttlers w)) (throttlers w') = throttlers w \<and>
      list_all th_closed (drop (length (throttlers w)) (throttlers w')) \<and>
      healthChecks w' = healthChecks w \<and> watchers w' = watchers w \<and>
      contexts w' = contexts w \<and> goroutines w' = goroutines w)"

subsection \<open>A concrete tablet\<close>

definition caller_target :: querypb_Target where
  "caller_target = \<lparr>Keyspace = ''commerce'', Shard = ''-80'', TabletType = PRIMARY, Cell = ''zone1''\<rparr>"

definition other_target :: querypb_Target where
  "other_target = \<lparr>Keyspace = ''customer'', Shard = ''80-'', TabletType = REPLICA, Cell = ''zone1''\<rparr>"

text \<open>The world at start: the caller's target at address 0, nothing else.\<close>

definition w_init :: world where
  "w_init =
     \<lparr>heap = (\<lambda>_. \<lparr>Keyspace = [], Shard = [], TabletType = OTHER, Cell = []\<rparr>)(0 := caller_target),
      next_addr = 1, throttlers = [], healthChecks = [], watchers = [], contexts = [],
      goroutines = [], logs = []\<rparr>"

definition Unmarshal_ok :: "string \<Rightarrow> error + Configuration" where
  "Unmarshal_ok s = Inr \<lparr>MaxReplicationLagSec = 10\<rparr>"

definition Verify_ok :: "Configuration option \<Rightarrow> error option" where
  "Verify_ok c = None"

definition tc_enabled :: TabletConfig where
  "tc_enabled =
     \<lparr>EnableTxThrottler = True, TxThrottlerConfig = ''max_replication_lag_sec: 10'',
      TxThrottlerHealthCheckCells = [''zone1'']\<rparr>"

definition tc_no_cells :: TabletConfig where
  "tc_no_cells = tc_enabled\<lparr>TxThrottlerHealthCheckCells := []\<rparr>"

definition cfg_enabled :: txThrottlerConfig where
  "cfg_enabled =
     \<lparr>enabled = True, topoServer = Some 0, throttlerConfig = Some \<lparr>MaxReplicationLagSec = 10\<rparr>,
      healthCheckCells = [''zone1'']\<rparr>"

definition t_disabled :: TxThrottler where
  "t_disabled = \<lparr>config = disabled_config, state = None, target = None\<rparr>"

text \<open>The enabled throttler as \<^verbatim>\<open>NewTxThrottler\<close> returns it, closed and without a target.\<close>

definition t_new :: TxThrottler where
  "t_new = \<lparr>config = cfg_enabled, state = None, target = None\<rparr>"

text \<open>The same after \<^verbatim>\<open>InitDBConfig\<close> on the caller's target: the clone is at address 1.\<close>

definition t_closed :: TxThrottler where
  "t_closed = \<lparr>config = cfg_enabled, state = None, target = Some 1\<rparr>"

definition w_closed :: world where
  "w_closed = w_init\<lparr>heap := (heap w_init)(1 := caller_target), next_addr := 2\<rparr>"

definition env_ok :: env where
  "env_ok = \<lparr>throttlerFactory_err = None, UpdateConfiguration_err = None\<rparr>"

definition env_factory_fails :: env where
  "env_factory_fails =
     \<lparr>throttlerFactory_err = Some (ExternalError ''registration failed''),
      UpdateConfiguration_err = None\<rparr>"

definition env_update_fails :: env where
  "env_update_fails =
     \<lparr>throttlerFactory_err = None,
      UpdateConfiguration_err = Some (ExternalError ''bad configuration'')\<rparr>"

text \<open>The open state that \<^verbatim>\<open>Open\<close> builds from \<open>t_closed\<close> in \<open>w_closed\<close>, and the world
  it leaves.\<close>

definition ts_open :: txThrottlerState where
  "ts_open =
     \<lparr>throttler = Some 0, stopHealthCheck = Some 0, healthCheck = Some 0,
      topologyWatchers = [0]\<rparr>"

definition t_open :: TxThrottler where
  "t_open = t_closed\<lparr>state := Some ts_open\<rparr>"

definition w_open :: world where
  "w_open =
     w_closed\<lparr>
       throttlers :=
         [\<lparr>th_name = ''TransactionThrottler'', th_unit = ''TPS'', th_threadCount = 1,
           th_maxRate = MaxRateModuleDisabled, th_maxReplicationLag = 10,
           th_configuration = Some (\<lparr>MaxReplicationLagSec = 10\<rparr>, True),
           th_lag_records = [], th_throttle_calls = [], th_closed = False\<rparr>],
       healthChecks :=
         [\<lparr>hc_topoServer = Some 0, hc_cell = ''zone1'', hc_cellsToWatch = [''zone1''],
           hc_subscribers = 1, hc_closed = False\<rparr>],
       watchers :=
         [\<lparr>tw_topoServer = Some 0, tw_healthCheck = Some 0, tw_cell = ''zone1'',
           tw_keyspace = ''commerce'', tw_shard = ''-80'', tw_started = False,
           tw_stopped = False\<rparr>],
       contexts := [False],
       goroutines := [\<lparr>g_ctx = 0, g_healthCheck = Some 0\<rparr>],
       logs := [LogInfo ''TxThrottler: opening'']\<rparr>"

definition ev_replica :: TabletHealth where
  "ev_replica =
     \<lparr>tablet_cell = ''zone1'', tablet_uid = 101,
      Target = Some (caller_target\<lparr>TabletType := REPLICA\<rparr>), ReplicationLagSeconds = 3\<rparr>"

definition ev_primary :: TabletHealth where
  "ev_primary =
     \<lparr>tablet_cell = ''zone1'', tablet_uid = 100,
      Target = Some caller_target, ReplicationLagSeconds = 0\<rparr>"

definition ev_rdonly :: TabletHealth where
  "ev_rdonly =
     \<lparr>tablet_cell = ''zone1'', tablet_uid = 102,
      Target = Some (caller_target\<lparr>TabletType := RDONLY\<rparr>), ReplicationLagSeconds = 900\<rparr>"

text \<open>A replica of another keyspace and shard.\<close>

definition ev_other :: TabletHealth where
  "ev_other =
     \<lparr>tablet_cell = ''zone1'', tablet_uid = 200,
      Target = Some other_target, ReplicationLagSeconds = 60\<rparr>"

text \<open>A series of writes of the caller through its own pointers.\<close>

fun stores :: "(addr \<times> querypb_Target) list \<Rightarrow> world \<Rightarrow> world" where
  "stores [] w = w"
| "stores (m # ms) w = stores ms (store (fst m) (snd m) w)"

text \<open>The goroutine that \<^verbatim>\<open>Open\<close> spawns in \<open>w_open\<close>, and the world that \<^verbatim>\<open>Close\<close>
  leaves from \<open>w_open\<close>.\<close>

definition g_consumer :: goroutine where
  "g_consumer = \<lparr>g_ctx = 0, g_healthCheck = Some 0\<rparr>"

definition w_shut :: world where
  "w_shut =
     add_log (LogInfo ''TxThrottler: closed'')
       (throttler_Close 0 (healthCheck_Close 0 (watcher_Stop 0 w_open)))"

section \<open>Properties\<close>

subsection \<open>The concrete tablet, evaluated\<close>

lemma NewTxThrottler_t_new:
  "NewTxThrottler Unmarshal_ok Verify_ok tc_enabled (Some 0) w =
     Inr (t_new,
          add_log (LogInfof ''Initialized transaction throttler with config: '' cfg_enabled) w)"
  by (simp add: NewTxThrottler_def tryCreateTxThrottler_def newTxThrottler_def Unmarshal_ok_def
      Verify_ok_def tc_enabled_def t_new_def cfg_enabled_def)

lemma InitDBConfig_t_new: "InitDBConfig (Some 0) t_new w_init = (t_closed, w_closed)"
  by (simp add: InitDBConfig_def proto_Clone_def t_new_def t_closed_def w_closed_def w_init_def)

lemma Open_t_closed: "Open env_ok t_closed w_closed = Inr (None, t_open, w_open)"
  by (simp add: Open_def t_closed_def w_closed_def w_init_def cfg_enabled_def add_log_def
      newTxThrottlerState_def throttlerFactory_def env_ok_def UpdateConfiguration_def
      update_at_def createTxThrottlerHealthCheck_def context_WithCancel_def
      healthCheckFactory_def go_def healthCheck_Subscribe_def topologyWatcherFactory_def
      caller_target_def t_open_def ts_open_def w_open_def TxThrottlerName_def)

subsection \<open>A disabled throttler\<close>

lemma Open_disabled: "\<not> enabled (config t) \<Longrightarrow> Open e t w = Inr (None, t, w)"
  by (simp add: Open_def)

lemma Close_disabled: "\<not> enabled (config t) \<Longrightarrow> Close t w = Inr (t, w)"
  by (simp add: Close_def)

lemma Throttle_disabled: "\<not> enabled (config t) \<Longrightarrow> Throttle wait t w = Inr (False, w)"
  by (simp add: Throttle_def)

lemma InitDBConfig_frame:
  "InitDBConfig p t w = (t', w') \<Longrightarrow>
     config t' = config t \<and> state t' = state t \<and> resources w' = resources w \<and>
     logs w' = logs w"
  by (auto simp: InitDBConfig_def proto_Clone_def resources_def split: option.splits)

lemma run_disabled:
  "\<not> enabled (config t) \<Longrightarrow>
   \<exists>t' w'. run cs t w = Inr (map disabled_ret cs, t', w') \<and> config t' = config t \<and>
     state t' = state t \<and> resources w' = resources w \<and> logs w' = logs w"
proof (induction cs arbitrary: t w)
  case Nil
  then show ?case by simp
next
  case (Cons c cs)
  show ?case
  proof (cases c)
    case (CallOpen e)
    with Cons.IH [OF Cons.prems, of w] Cons.prems show ?thesis
      by (auto simp: Open_disabled)
  next
    case CallClose
    with Cons.IH [OF Cons.prems, of w] Cons.prems show ?thesis
      by (auto simp: Close_disabled)
  next
    case (CallInitDBConfig p)
    obtain t1 w1 where i: "InitDBConfig p t w = (t1, w1)"
      by (cases "InitDBConfig p t w")
    note f = InitDBConfig_frame [OF i]
    from f Cons.prems have "\<not> enabled (config t1)" by simp
    from Cons.IH [OF this, of w1] f i CallInitDBConfig show ?thesis
      by auto
  next
    case (CallThrottle wait)
    with Cons.IH [OF Cons.prems, of w] Cons.prems show ?thesis
      by (auto simp: Throttle_disabled)
  qed
qed

text \<open>
  C1. When the configuration has \<open>enabled = False\<close>, \<^verbatim>\<open>Open\<close> returns nil and \<^verbatim>\<open>Close\<close>
  returns, both leaving the throttler and the whole world as they were; and along every
  sequence of calls to \<^verbatim>\<open>Open\<close>, \<^verbatim>\<open>Close\<close>, \<^verbatim>\<open>InitDBConfig\<close> and \<^verbatim>\<open>Throttle\<close> nothing
  panics, every \<^verbatim>\<open>Throttle\<close> returns false, the throttler stays closed, and no subordinate
  object and no log line is created or changed.
\<close>

theorem disabled_throttler_admits:
  assumes "\<not> enabled (config t)"
  shows "Open e t w = Inr (None, t, w) \<and> Close t w = Inr (t, w) \<and>
     Throttle wait t w = Inr (False, w) \<and>
     (\<exists>t' w'. run cs t w = Inr (map disabled_ret cs, t', w') \<and> config t' = config t \<and>
        state t' = state t \<and> resources w' = resources w \<and> logs w' = logs w)"
  using assms run_disabled [OF assms, of cs w]
  by (simp add: Open_disabled Close_disabled Throttle_disabled)

theorem disabled_throttler_admits_witness:
  "\<not> enabled (config t_disabled) \<and>
   Open env_ok t_disabled w_init = Inr (None, t_disabled, w_init) \<and>
   Close t_disabled w_init = Inr (t_disabled, w_init) \<and>
   Throttle 5 t_disabled w_init = Inr (False, w_init) \<and>
   fst (projr (run [CallThrottle 5, CallOpen env_ok, CallThrottle 1, CallInitDBConfig (Some 0),
                    CallClose, CallThrottle 9] t_disabled w_init)) =
     [RetThrottle False, RetOpen None, RetThrottle False, RetInitDBConfig, RetClose,
      RetThrottle False]"
proof -
  have d: "\<not> enabled (config t_disabled)"
    by (simp add: t_disabled_def disabled_config_def)
  from disabled_throttler_admits [OF d, of env_ok w_init 5
      "[CallThrottle 5, CallOpen env_ok, CallThrottle 1, CallInitDBConfig (Some 0),
        CallClose, CallThrottle 9]"]
  show ?thesis using d by auto
qed

subsection \<open>Admission on a closed throttler\<close>

text \<open>
  C2. When the configuration has \<open>enabled = True\<close> and the state is nil, \<^verbatim>\<open>Throttle\<close>
  panics with its BUG message; it returns no verdict.
\<close>

theorem Throttle_closed_panics:
  assumes "enabled (config t)" and "state t = None"
  shows "Throttle wait t w = Inl (Panic ''BUG: Throttle() called on a closed TxThrottler'') \<and>
     Throttle wait t w \<noteq> Inr (True, w') \<and> Throttle wait t w \<noteq> Inr (False, w')"
  using assms by (simp add: Throttle_def)

theorem Throttle_closed_panics_witness:
  "enabled (config t_closed) \<and> state t_closed = None \<and>
   Throttle 0 t_closed w_closed = Inl (Panic ''BUG: Throttle() called on a closed TxThrottler'')"
proof -
  have a: "enabled (config t_closed)" and b: "state t_closed = None"
    by (simp_all add: t_closed_def cfg_enabled_def)
  from Throttle_closed_panics [OF a b, of 0 w_closed w_closed] a b show ?thesis
    by simp
qed

subsection \<open>The health events\<close>

lemma StatsUpdate_event:
  assumes "throttler ts = Some i" and "Target th \<noteq> None"
  shows "StatsUpdate ts now (Some th) w =
           Inr (if is_replica (now, th) then RecordReplicationLag i now th w else w)"
  using assms by (auto simp: StatsUpdate_def is_replica_def role_def split: option.splits)

lemma with_lag_records_Nil: "with_lag_records i [] w = w"
  by (simp add: with_lag_records_def update_at_def)

lemma with_lag_records_Cons:
  "with_lag_records i evs (RecordReplicationLag i now th w) =
     with_lag_records i ((now, th) # evs) w"
  by (simp add: with_lag_records_def RecordReplicationLag_def update_at_def)

lemma lag_records_with:
  "i < length (throttlers w) \<Longrightarrow>
   th_lag_records (throttlers (with_lag_records i evs w) ! i) =
     th_lag_records (throttlers w ! i) @ evs"
  by (simp add: with_lag_records_def update_at_def)

lemma consumer_deliveries:
  assumes "throttler ts = Some i" and "\<forall>e \<in> set evs. Target (snd e) \<noteq> None"
  shows "consumer ts (deliveries evs) w =
           Inr (Running, with_lag_records i (filter is_replica evs) w)"
  using assms(2)
proof (induction evs arbitrary: w)
  case Nil
  show ?case by (simp add: deliveries_def with_lag_records_Nil)
next
  case (Cons e evs)
  obtain now th where e: "e = (now, th)" by (cases e)
  from Cons.prems e have tg: "Target th \<noteq> None" by simp
  from Cons.prems have rest: "\<forall>e \<in> set evs. Target (snd e) \<noteq> None" by simp
  have step: "consumer ts (deliveries ((now, th) # evs)) w =
      consumer ts (deliveries evs)
        (if is_replica (now, th) then RecordReplicationLag i now th w else w)"
    by (simp add: deliveries_def StatsUpdate_event [OF assms(1) tg])
  show ?case
    unfolding e step Cons.IH [OF rest]
    by (simp add: with_lag_records_Cons)
qed

text \<open>
  C7. While the throttler is open (its state holds the wrapped throttler \<open>i\<close>), the
  consumer that is handed the events \<open>evs\<close>, each with the clock reading at its receipt,
  passes to \<^verbatim>\<open>RecordReplicationLag\<close> exactly the events whose role is \<^verbatim>\<open>REPLICA\<close>, in the
  order received and each with its own receive time; every other event (PRIMARY, RDONLY,
  any other role) leaves the world as it was. The events carry a target, as those of the
  health check do.
\<close>

theorem fan_in_keeps_replicas_only:
  assumes "throttler ts = Some i" and "i < length (throttlers w)"
    and "\<forall>e \<in> set evs. Target (snd e) \<noteq> None"
  shows "\<exists>w'. consumer ts (deliveries evs) w = Inr (Running, w') \<and>
     w' = with_lag_records i (filter is_replica evs) w \<and>
     th_lag_records (throttlers w' ! i) =
       th_lag_records (throttlers w ! i) @ filter is_replica evs"
  using consumer_deliveries [OF assms(1) assms(3), of w] lag_records_with [OF assms(2)]
  by simp

theorem fan_in_keeps_replicas_only_witness:
  "throttler ts_open = Some 0 \<and> 0 < length (throttlers w_open) \<and>
   consumer ts_open (deliveries [(5, ev_primary), (6, ev_replica), (7, ev_rdonly)]) w_open =
     Inr (Running, with_lag_records 0 [(6, ev_replica)] w_open) \<and>
   th_lag_records (throttlers (with_lag_records 0 [(6, ev_replica)] w_open) ! 0) =
     [(6, ev_replica)]"
proof -
  have a: "throttler ts_open = Some 0" by (simp add: ts_open_def)
  have b: "0 < length (throttlers w_open)" by (simp add: w_open_def)
  have c: "\<forall>e \<in> set [(5, ev_primary), (6, ev_replica), (7, ev_rdonly)]. Target (snd e) \<noteq> None"
    by (simp add: ev_primary_def ev_replica_def ev_rdonly_def)
  have f: "filter is_replica [(5, ev_primary), (6, ev_replica), (7, ev_rdonly)] =
      [(6, ev_replica)]"
    by (simp add: is_replica_def role_def ev_primary_def ev_replica_def ev_rdonly_def
        caller_target_def)
  have r: "th_lag_records (throttlers w_open ! 0) = []" by (simp add: w_open_def)
  from fan_in_keeps_replicas_only [OF a b c] show ?thesis
    unfolding f r using a b by simp
qed

text \<open>
  C3, as the code has it. The consumer compares no event with the throttler's own
  target: while the throttler is open, an event whose role is \<^verbatim>\<open>REPLICA\<close> is handed to
  \<^verbatim>\<open>RecordReplicationLag\<close> with its receive time whatever its keyspace and shard are,
  and whatever target the throttler was given.
\<close>

theorem fan_in_forwards_every_replica:
  assumes "state t = Some ts" and "throttler ts = Some i" and "i < length (throttlers w)"
    and "Target th = Some tg" and "TabletType tg = REPLICA"
  shows "consumer ts (deliveries [(now, th)]) w = Inr (Running, RecordReplicationLag i now th w) \<and>
     th_lag_records (throttlers (RecordReplicationLag i now th w) ! i) =
       th_lag_records (throttlers w ! i) @ [(now, th)]"
proof -
  from assms(4) have tg: "\<forall>e \<in> set [(now, th)]. Target (snd e) \<noteq> None" by simp
  from assms(4,5) have rep: "filter is_replica [(now, th)] = [(now, th)]"
    by (simp add: is_replica_def role_def)
  have w: "with_lag_records i [(now, th)] w = RecordReplicationLag i now th w"
    by (simp add: with_lag_records_def RecordReplicationLag_def)
  from consumer_deliveries [OF assms(2) tg, of w] lag_records_with [OF assms(3), of "[(now, th)]"]
  show ?thesis unfolding rep w by simp
qed

theorem fan_in_forwards_every_replica_witness:
  "state t_open = Some ts_open \<and> throttler ts_open = Some 0 \<and>
   0 < length (throttlers w_open) \<and> Target ev_other = Some other_target \<and>
   TabletType other_target = REPLICA \<and>
   consumer ts_open (deliveries [(7, ev_other)]) w_open =
     Inr (Running, RecordReplicationLag 0 7 ev_other w_open)"
proof -
  have a: "state t_open = Some ts_open" by (simp add: t_open_def)
  have b: "throttler ts_open = Some 0" by (simp add: ts_open_def)
  have c: "0 < length (throttlers w_open)" by (simp add: w_open_def)
  have d: "Target ev_other = Some other_target" by (simp add: ev_other_def)
  have e: "TabletType other_target = REPLICA" by (simp add: other_target_def)
  from fan_in_forwards_every_replica [OF a b c d e, of 7] a b c d e show ?thesis
    by simp
qed

text \<open>
  C3, as the claim has it, fails: the throttler opened for keyspace \<open>commerce\<close>, shard
  \<open>-80\<close> receives the event of a replica of keyspace \<open>customer\<close>, shard \<open>80-\<close>, and the
  consumer hands it to \<^verbatim>\<open>RecordReplicationLag\<close>.
\<close>

theorem fan_in_forwards_other_shard:
  "Open env_ok t_closed w_closed = Inr (None, t_open, w_open) \<and>
   state t_open = Some ts_open \<and> target t_open = Some 1 \<and>
   Keyspace (heap w_open 1) = ''commerce'' \<and> Shard (heap w_open 1) = ''-80'' \<and>
   Target ev_other = Some other_target \<and>
   Keyspace other_target = ''customer'' \<and> Shard other_target = ''80-'' \<and>
   consumer ts_open [Received 7 (Some ev_other)] w_open =
     Inr (Running, RecordReplicationLag 0 7 ev_other w_open) \<and>
   th_lag_records (throttlers w_open ! 0) = [] \<and>
   th_lag_records (throttlers (RecordReplicationLag 0 7 ev_other w_open) ! 0) = [(7, ev_other)]"
  by (simp add: Open_t_closed)
    (simp add: t_open_def t_closed_def w_open_def w_closed_def w_init_def caller_target_def
      ev_other_def other_target_def ts_open_def StatsUpdate_def RecordReplicationLag_def
      update_at_def)

subsection \<open>Opening and closing\<close>

lemma make_watchers_frame:
  "make_watchers c result keyspace shard cells w = (result', w') \<Longrightarrow>
     throttlers w' = throttlers w \<and> healthChecks w' = healthChecks w \<and>
     contexts w' = contexts w \<and> goroutines w' = goroutines w \<and> logs w' = logs w \<and>
     heap w' = heap w \<and> next_addr w' = next_addr w \<and>
     throttler result' = throttler result \<and> healthCheck result' = healthCheck result \<and>
     stopHealthCheck result' = stopHealthCheck result"
proof (induction cells arbitrary: result w)
  case Nil
  then show ?case by simp
next
  case (Cons cell cells)
  then show ?case
    by (fastforce simp: topologyWatcherFactory_def)
qed

lemma newTxThrottlerState_factory_fails:
  assumes "throttlerConfig c = Some tc" and "throttlerFactory_err e = Some err"
  shows "newTxThrottlerState e c keyspace shard cell w = Inr (Inl err, w)"
  using assms by (simp add: newTxThrottlerState_def throttlerFactory_def)

lemma newTxThrottlerState_update_fails:
  assumes "throttlerConfig c = Some tc" and "throttlerFactory_err e = None"
    and "UpdateConfiguration_err e = Some err"
  shows "\<exists>x. newTxThrottlerState e c keyspace shard cell w =
           Inr (Inl err, w\<lparr>throttlers := throttlers w @ [x]\<rparr>) \<and> th_closed x"
proof -
  let ?x = "\<lparr>th_name = TxThrottlerName, th_unit = ''TPS'', th_threadCount = 1,
     th_maxRate = MaxRateModuleDisabled, th_maxReplicationLag = MaxReplicationLagSec tc,
     th_configuration = None, th_lag_records = [], th_throttle_calls = [], th_closed = True\<rparr>"
  from assms have "newTxThrottlerState e c keyspace shard cell w =
      Inr (Inl err, w\<lparr>throttlers := throttlers w @ [?x]\<rparr>)"
    by (simp add: newTxThrottlerState_def throttlerFactory_def UpdateConfiguration_def
        throttler_Close_def update_at_def)
  moreover have "th_closed ?x" by simp
  ultimately show ?thesis by blast
qed

lemma newTxThrottlerState_succeeds:
  assumes "throttlerConfig c = Some tc" and "throttlerFactory_err e = None"
    and "UpdateConfiguration_err e = None"
  shows "\<exists>ts w'. newTxThrottlerState e c keyspace shard cell w = Inr (Inr ts, w')"
  using assms
  by (auto simp: newTxThrottlerState_def throttlerFactory_def UpdateConfiguration_def
      split: prod.splits)

lemma newTxThrottlerState_no_panic:
  assumes "throttlerConfig c = Some tc"
  shows "\<exists>r w'. newTxThrottlerState e c keyspace shard cell w = Inr (r, w')"
proof (cases "throttlerFactory_err e")
  case None
  show ?thesis
  proof (cases "UpdateConfiguration_err e")
    case None
    with newTxThrottlerState_succeeds [OF assms \<open>throttlerFactory_err e = None\<close>] show ?thesis
      by blast
  next
    case (Some err)
    with newTxThrottlerState_update_fails [OF assms \<open>throttlerFactory_err e = None\<close>] show ?thesis
      by blast
  qed
next
  case (Some err)
  with newTxThrottlerState_factory_fails [OF assms] show ?thesis by blast
qed

lemma state_None_id: "state t = None \<Longrightarrow> t\<lparr>state := None\<rparr> = t"
  by (cases t) simp

lemma Open_nil_target:
  "enabled (config t) \<Longrightarrow> state t = None \<Longrightarrow> target t = None \<Longrightarrow>
   Open e t w = Inl NilPointerDereference"
  by (simp add: Open_def)

lemma Open_no_panic:
  assumes "enabled (config t)" and "state t = None" and "target t = Some a"
    and "throttlerConfig (config t) = Some tc"
  shows "\<exists>err t' w'. Open e t w = Inr (err, t', w')"
proof -
  let ?w1 = "add_log (LogInfo ''TxThrottler: opening'') w"
  from newTxThrottlerState_no_panic [OF assms(4)]
  obtain r w' where n: "newTxThrottlerState e (config t) (Keyspace (heap ?w1 a))
      (Shard (heap ?w1 a)) (Cell (heap ?w1 a)) ?w1 = Inr (r, w')"
    by blast
  show ?thesis
    using assms n by (cases r) (simp_all add: Open_def)
qed

lemma NewTxThrottler_enabled:
  assumes "NewTxThrottler Unmarshal Verify tc ts w0 = Inr (t, w1)" and "enabled (config t)"
  shows "state t = None \<and> target t = None \<and> throttlerConfig (config t) \<noteq> None \<and>
     healthCheckCells (config t) \<noteq> []"
  using assms
  by (auto simp: NewTxThrottler_def tryCreateTxThrottler_def newTxThrottler_def
      disabled_config_def split: sum.splits option.splits if_splits)

lemma Close_twice_eq: "Close_twice t w = Close t w"
  by (auto simp: Close_twice_def Close_def split: option.splits sum.splits prod.splits)

lemma Open_again:
  assumes "Open e1 t w = Inr (None, t', w')"
  shows "Open e2 t' w' = Inr (None, t', w')"
  using assms
  by (auto simp: Open_def Let_def split: if_splits option.splits sum.splits prod.splits)

lemma Open_error_closed:
  assumes "Open e1 t w = Inr (Some err, t', w')"
  shows "t' = t \<and> state t' = None \<and> enabled (config t)"
  using assms
  by (auto simp: Open_def Let_def state_None_id split: if_splits option.splits sum.splits prod.splits)

text \<open>
  C8. \<^verbatim>\<open>Open\<close> on a closed, enabled throttler that has its target and its throttler
  configuration: when \<^verbatim>\<open>throttlerFactory\<close> or \<^verbatim>\<open>UpdateConfiguration\<close> returns an error,
  \<^verbatim>\<open>Open\<close> returns that error, the throttler is as before (its state nil), and in the
  world every throttler built by the call is closed and no health check, watcher, context
  or goroutine was created.
\<close>

theorem Open_failure_rolls_back:
  assumes "enabled (config t)" and "state t = None" and "target t = Some a"
    and "throttlerConfig (config t) = Some c"
    and "throttlerFactory_err e \<noteq> None \<or> UpdateConfiguration_err e \<noteq> None"
  shows "\<exists>err w'. Open e t w = Inr (Some err, t, w') \<and>
     (throttlerFactory_err e = Some err \<or>
      throttlerFactory_err e = None \<and> UpdateConfiguration_err e = Some err) \<and>
     released_since w w' \<and> logs w' = logs w @ [LogInfo ''TxThrottler: opening''] \<and>
     heap w' = heap w"
proof (cases "throttlerFactory_err e")
  case (Some err)
  from newTxThrottlerState_factory_fails [OF assms(4) Some] assms(1,2,3) Some show ?thesis
    by (simp add: Open_def state_None_id released_since_def add_log_def)
next
  case None
  with assms(5) obtain err where u: "UpdateConfiguration_err e = Some err" by auto
  let ?w1 = "add_log (LogInfo ''TxThrottler: opening'') w"
  from newTxThrottlerState_update_fails [OF assms(4) None u]
  obtain x where n: "newTxThrottlerState e (config t) (Keyspace (heap ?w1 a))
      (Shard (heap ?w1 a)) (Cell (heap ?w1 a)) ?w1 =
        Inr (Inl err, ?w1\<lparr>throttlers := throttlers ?w1 @ [x]\<rparr>)" and x: "th_closed x"
    by blast
  from n x assms(1,2,3) None u show ?thesis
    by (simp add: Open_def state_None_id released_since_def add_log_def)
qed

theorem Open_failure_rolls_back_witness:
  "enabled (config t_closed) \<and> state t_closed = None \<and> target t_closed = Some 1 \<and>
   fst (projr (Open env_update_fails t_closed w_closed)) = Some (ExternalError ''bad configuration'') \<and>
   fst (snd (projr (Open env_update_fails t_closed w_closed))) = t_closed \<and>
   released_since w_closed (snd (snd (projr (Open env_update_fails t_closed w_closed)))) \<and>
   fst (projr (Open env_factory_fails t_closed w_closed)) = Some (ExternalError ''registration failed'') \<and>
   fst (snd (projr (Open env_factory_fails t_closed w_closed))) = t_closed \<and>
   released_since w_closed (snd (snd (projr (Open env_factory_fails t_closed w_closed))))"
proof -
  have a: "enabled (config t_closed)" and b: "state t_closed = None"
    and c: "target t_closed = Some 1"
    and d: "throttlerConfig (config t_closed) = Some \<lparr>MaxReplicationLagSec = 10\<rparr>"
    by (simp_all add: t_closed_def cfg_enabled_def)
  have u: "throttlerFactory_err env_update_fails \<noteq> None \<or>
      UpdateConfiguration_err env_update_fails \<noteq> None"
    by (simp add: env_update_fails_def)
  have f: "throttlerFactory_err env_factory_fails \<noteq> None \<or>
      UpdateConfiguration_err env_factory_fails \<noteq> None"
    by (simp add: env_factory_fails_def)
  have e0: "throttlers w_closed = []" by (simp add: w_closed_def w_init_def)
  from Open_failure_rolls_back [OF a b c d u, of w_closed]
    Open_failure_rolls_back [OF a b c d f, of w_closed] a b c
  show ?thesis
    by (auto simp: env_update_fails_def env_factory_fails_def)
qed

lemma Open_failure_outcome:
  assumes "enabled (config t)" and "state t = None" and "target t = Some a"
    and "throttlerConfig (config t) = Some c"
    and "throttlerFactory_err e \<noteq> None \<or> UpdateConfiguration_err e \<noteq> None"
  shows "\<exists>err w'. Open e t w = Inr (Some err, t, w') \<and>
     (throttlerFactory_err e = Some err \<or>
      throttlerFactory_err e = None \<and> UpdateConfiguration_err e = Some err) \<and>
     released_since w w' \<and> heap w' = heap w"
proof (cases "throttlerFactory_err e")
  case (Some err)
  from newTxThrottlerState_factory_fails [OF assms(4) Some] assms(1,2,3) Some show ?thesis
    by (simp add: Open_def state_None_id released_since_def add_log_def)
next
  case None
  with assms(5) obtain err where u: "UpdateConfiguration_err e = Some err" by auto
  let ?w1 = "add_log (LogInfo ''TxThrottler: opening'') w"
  from newTxThrottlerState_update_fails [OF assms(4) None u]
  obtain x where n: "newTxThrottlerState e (config t) (Keyspace (heap ?w1 a))
      (Shard (heap ?w1 a)) (Cell (heap ?w1 a)) ?w1 =
        Inr (Inl err, ?w1\<lparr>throttlers := throttlers ?w1 @ [x]\<rparr>)" and x: "th_closed x"
    by blast
  from n x assms(1,2,3) None u show ?thesis
    by (simp add: Open_def state_None_id released_since_def add_log_def)
qed

lemma Open_error_cause:
  assumes "Open e t w = Inr (Some err, t', w')"
  shows "enabled (config t) \<and> state t = None \<and> target t \<noteq> None \<and>
     throttlerConfig (config t) \<noteq> None \<and>
     (throttlerFactory_err e = Some err \<or>
      throttlerFactory_err e = None \<and> UpdateConfiguration_err e = Some err)"
proof -
  from assms have en: "enabled (config t)" and st: "state t = None"
    by (auto simp: Open_def split: if_splits)
  from assms en st obtain a where a: "target t = Some a"
    by (cases "target t") (auto simp: Open_def)
  have c: "throttlerConfig (config t) \<noteq> None"
  proof
    assume "throttlerConfig (config t) = None"
    with assms en st a show False
      by (simp add: Open_def newTxThrottlerState_def)
  qed
  then obtain tc where tc: "throttlerConfig (config t) = Some tc" by auto
  let ?w1 = "add_log (LogInfo ''TxThrottler: opening'') w"
  let ?n = "newTxThrottlerState e (config t) (Keyspace (heap ?w1 a)) (Shard (heap ?w1 a))
      (Cell (heap ?w1 a)) ?w1"
  have "throttlerFactory_err e = Some err \<or>
      throttlerFactory_err e = None \<and> UpdateConfiguration_err e = Some err"
  proof (cases "throttlerFactory_err e")
    case (Some err')
    from newTxThrottlerState_factory_fails [OF tc Some] have "?n = Inr (Inl err', ?w1)" .
    with assms en st a Some show ?thesis
      by (simp add: Open_def Let_def)
  next
    case None
    show ?thesis
    proof (cases "UpdateConfiguration_err e")
      case (Some err')
      from newTxThrottlerState_update_fails [OF tc None Some]
      obtain x where "?n = Inr (Inl err', ?w1\<lparr>throttlers := throttlers ?w1 @ [x]\<rparr>)"
        by blast
      with assms en st a None Some show ?thesis
        by (simp add: Open_def Let_def)
    next
      case n2: None
      from newTxThrottlerState_succeeds [OF tc None n2]
      obtain ts w2 where "?n = Inr (Inr ts, w2)" by blast
      with assms en st a show ?thesis
        by (simp add: Open_def Let_def)
    qed
  qed
  with en st a c show ?thesis by simp
qed

text \<open>
  C9. \<^verbatim>\<open>Close\<close> twice is \<^verbatim>\<open>Close\<close> once, in every state. \<^verbatim>\<open>Open\<close> twice, the
  factories answering the second call as they answered the first, is \<^verbatim>\<open>Open\<close> once: a
  panic is the same panic; after a first call that returns nil the second returns nil
  and changes neither the throttler nor the world (this whatever the factories would
  answer); after a first call that returns an error the second returns the same error
  and the same closed throttler, and leaves no subordinate behind that the first did
  not leave.
\<close>

theorem Open_Close_idempotent:
  "Close_twice t w = Close t w \<and>
   (\<forall>p. Open e t w = Inl p \<longrightarrow> Open_twice e e t w = Inl p) \<and>
   (\<forall>t' w'. Open e t w = Inr (None, t', w') \<longrightarrow>
      Open_twice e e t w = Inr (None, t', w') \<and> Open_twice e e2 t w = Inr (None, t', w')) \<and>
   (\<forall>err t' w'. Open e t w = Inr (Some err, t', w') \<longrightarrow>
      t' = t \<and> state t' = None \<and>
      (\<exists>w''. Open_twice e e t w = Inr (Some err, t', w'') \<and> released_since w' w'' \<and>
         heap w'' = heap w'))"
proof (intro conjI allI impI)
  show "Close_twice t w = Close t w" by (rule Close_twice_eq)
next
  fix p assume "Open e t w = Inl p"
  then show "Open_twice e e t w = Inl p" by (simp add: Open_twice_def)
next
  fix t' w' assume o: "Open e t w = Inr (None, t', w')"
  from Open_again [OF o, of e] o show "Open_twice e e t w = Inr (None, t', w')"
    by (simp add: Open_twice_def)
  from Open_again [OF o, of e2] o show "Open_twice e e2 t w = Inr (None, t', w')"
    by (simp add: Open_twice_def)
next
  fix err t' w' assume o: "Open e t w = Inr (Some err, t', w')"
  from Open_error_closed [OF o] show "t' = t" by blast
  from Open_error_closed [OF o] show "state t' = None" by blast
  from Open_error_closed [OF o] have eq: "t' = t" by blast
  note c = Open_error_cause [OF o]
  from c obtain a tc where a: "target t = Some a" and tc: "throttlerConfig (config t) = Some tc"
    by auto
  from c have f: "throttlerFactory_err e \<noteq> None \<or> UpdateConfiguration_err e \<noteq> None"
    by auto
  from c have en: "enabled (config t)" and st: "state t = None" by simp_all
  from Open_failure_outcome [OF en st a tc f, of w']
  obtain err2 w'' where o2: "Open e t w' = Inr (Some err2, t, w'')"
    and cause: "throttlerFactory_err e = Some err2 \<or>
      throttlerFactory_err e = None \<and> UpdateConfiguration_err e = Some err2"
    and rel: "released_since w' w''" and hp: "heap w'' = heap w'"
    by blast
  from c cause have "err2 = err" by auto
  with o o2 eq rel hp
  show "\<exists>w''. Open_twice e e t w = Inr (Some err, t', w'') \<and> released_since w' w'' \<and>
         heap w'' = heap w'"
    by (auto simp: Open_twice_def)
qed

theorem Open_Close_idempotent_witness:
  "Open env_ok t_closed w_closed = Inr (None, t_open, w_open) \<and>
   Open_twice env_ok env_ok t_closed w_closed = Inr (None, t_open, w_open) \<and>
   Close_twice t_open w_open = Close t_open w_open \<and>
   fst (projr (Open env_update_fails t_closed w_closed)) =
     Some (ExternalError ''bad configuration'') \<and>
   fst (projr (Open_twice env_update_fails env_update_fails t_closed w_closed)) =
     Some (ExternalError ''bad configuration'') \<and>
   fst (snd (projr (Open_twice env_update_fails env_update_fails t_closed w_closed))) = t_closed \<and>
   released_since (snd (snd (projr (Open env_update_fails t_closed w_closed))))
     (snd (snd (projr (Open_twice env_update_fails env_update_fails t_closed w_closed))))"
proof -
  have a: "enabled (config t_closed)" and b: "state t_closed = None"
    and c: "target t_closed = Some 1"
    and d: "throttlerConfig (config t_closed) = Some \<lparr>MaxReplicationLagSec = 10\<rparr>"
    by (simp_all add: t_closed_def cfg_enabled_def)
  have u: "throttlerFactory_err env_update_fails \<noteq> None \<or>
      UpdateConfiguration_err env_update_fails \<noteq> None"
    by (simp add: env_update_fails_def)
  from Open_failure_outcome [OF a b c d u, of w_closed]
  obtain err w' where o: "Open env_update_fails t_closed w_closed = Inr (Some err, t_closed, w')"
    and e: "err = ExternalError ''bad configuration''"
    by (auto simp: env_update_fails_def)
  from Open_Close_idempotent [of t_closed w_closed env_update_fails env_ok] o
  obtain w'' where o2: "Open_twice env_update_fails env_update_fails t_closed w_closed =
      Inr (Some err, t_closed, w'')" and r: "released_since w' w''"
    by auto
  from Open_Close_idempotent [of t_open w_open env_ok env_ok]
    Open_Close_idempotent [of t_closed w_closed env_ok env_ok] o o2 e r
  show ?thesis
    by (simp add: Open_t_closed)
qed

text \<open>
  C10. An enabled throttler as \<^verbatim>\<open>NewTxThrottler\<close> returns it has no target, and \<^verbatim>\<open>Open\<close>
  on it panics with a nil dereference, whatever the factories would answer; so it does
  after \<^verbatim>\<open>InitDBConfig\<close> of a nil target. After \<^verbatim>\<open>InitDBConfig\<close> of a target, \<^verbatim>\<open>Open\<close>
  returns.
\<close>

theorem Open_requires_InitDBConfig:
  assumes "NewTxThrottler Unmarshal Verify tc ts w0 = Inr (t, w1)" and "enabled (config t)"
  shows "target t = None \<and> Open e t w = Inl NilPointerDereference \<and>
     (\<exists>err t' w'. Open e (fst (InitDBConfig (Some p) t w)) (snd (InitDBConfig (Some p) t w)) =
        Inr (err, t', w')) \<and>
     Open e (fst (InitDBConfig None t w)) (snd (InitDBConfig None t w)) = Inl NilPointerDereference"
proof -
  note n = NewTxThrottler_enabled [OF assms]
  from n obtain c where c: "throttlerConfig (config t) = Some c" by auto
  have 1: "Open e t w = Inl NilPointerDereference"
    using assms(2) n by (simp add: Open_nil_target)
  have 2: "\<exists>err t' w'. Open e (fst (InitDBConfig (Some p) t w)) (snd (InitDBConfig (Some p) t w)) =
        Inr (err, t', w')"
    by (rule Open_no_panic [where a = "next_addr w" and tc = c])
      (use assms(2) n c in \<open>simp_all add: InitDBConfig_def proto_Clone_def\<close>)
  have 3: "Open e (fst (InitDBConfig None t w)) (snd (InitDBConfig None t w)) = Inl NilPointerDereference"
    by (rule Open_nil_target) (use assms(2) n in \<open>simp_all add: InitDBConfig_def proto_Clone_def\<close>)
  from n 1 2 3 show ?thesis by simp
qed

theorem Open_requires_InitDBConfig_witness:
  "NewTxThrottler Unmarshal_ok Verify_ok tc_enabled (Some 0) w_init =
     Inr (t_new, add_log (LogInfof ''Initialized transaction throttler with config: '' cfg_enabled) w_init) \<and>
   enabled (config t_new) \<and> target t_new = None \<and>
   Open env_ok t_new w_init = Inl NilPointerDereference \<and>
   Open env_ok (fst (InitDBConfig (Some 0) t_new w_init)) (snd (InitDBConfig (Some 0) t_new w_init)) =
     Inr (None, t_open, w_open)"
proof -
  have e: "enabled (config t_new)" by (simp add: t_new_def cfg_enabled_def)
  from Open_requires_InitDBConfig [OF NewTxThrottler_t_new e, of env_ok w_init 0] e
  show ?thesis
    by (simp add: NewTxThrottler_t_new InitDBConfig_t_new Open_t_closed)
qed

subsection \<open>Construction from an invalid configuration\<close>

text \<open>
  C6. When the throttler is enabled in the tablet configuration and the configuration
  text does not parse, or the parsed parameters fail \<^verbatim>\<open>Verify\<close>, or the list of health
  check cells is empty, \<^verbatim>\<open>NewTxThrottler\<close> does not panic: it logs the error of
  \<^verbatim>\<open>tryCreateTxThrottler\<close> (the log grows by exactly that one error line, and nothing
  else of the world changes) and returns the disabled throttler, on which \<^verbatim>\<open>Throttle\<close>
  returns false, at once and along every sequence of calls.
\<close>

theorem NewTxThrottler_invalid_config:
  assumes "EnableTxThrottler tc"
    and "(\<exists>err. Unmarshal (TxThrottlerConfig tc) = Inl err) \<or>
         (\<exists>c err. Unmarshal (TxThrottlerConfig tc) = Inr c \<and> Verify (Some c) = Some err) \<or>
         TxThrottlerHealthCheckCells tc = []"
  shows "\<exists>err t w1. tryCreateTxThrottler Unmarshal Verify tc ts = Inl err \<and>
     NewTxThrottler Unmarshal Verify tc ts w = Inr (t, w1) \<and>
     w1 = add_log (LogErrorf
         ''Error creating transaction throttler. Transaction throttling will be disabled. Error: ''
         err) w \<and>
     logs w1 = logs w @ [LogErrorf
         ''Error creating transaction throttler. Transaction throttling will be disabled. Error: ''
         err] \<and>
     resources w1 = resources w \<and> heap w1 = heap w \<and>
     t = \<lparr>config = disabled_config, state = None, target = None\<rparr> \<and> \<not> enabled (config t) \<and>
     Throttle wait t w2 = Inr (False, w2) \<and>
     (\<exists>t' w'. run cs t w2 = Inr (map disabled_ret cs, t', w') \<and> state t' = None \<and>
        resources w' = resources w2)"
proof -
  let ?t = "\<lparr>config = disabled_config, state = None, target = None\<rparr>"
  have d: "\<not> enabled (config ?t)" by (simp add: disabled_config_def)
  have "\<exists>err. tryCreateTxThrottler Unmarshal Verify tc ts = Inl err"
  proof (cases "Unmarshal (TxThrottlerConfig tc)")
    case (Inl err)
    with assms(1) show ?thesis by (simp add: tryCreateTxThrottler_def)
  next
    case (Inr c)
    show ?thesis
    proof (cases "Verify (Some c)")
      case (Some err)
      with Inr assms(1) show ?thesis
        by (simp add: tryCreateTxThrottler_def newTxThrottler_def)
    next
      case None
      with Inr assms(2) have "TxThrottlerHealthCheckCells tc = []" by auto
      with None Inr assms(1) show ?thesis
        by (simp add: tryCreateTxThrottler_def newTxThrottler_def)
    qed
  qed
  then obtain err where t: "tryCreateTxThrottler Unmarshal Verify tc ts = Inl err" ..
  have n: "NewTxThrottler Unmarshal Verify tc ts w =
       Inr (?t, add_log (LogErrorf
         ''Error creating transaction throttler. Transaction throttling will be disabled. Error: ''
         err) w)"
    by (simp add: NewTxThrottler_def t newTxThrottler_def disabled_config_def)
  from run_disabled [OF d, of cs w2] t n d Throttle_disabled [OF d] show ?thesis
    by (auto simp: add_log_def resources_def)
qed

theorem NewTxThrottler_invalid_config_witness:
  "EnableTxThrottler tc_no_cells \<and> TxThrottlerHealthCheckCells tc_no_cells = [] \<and>
   NewTxThrottler Unmarshal_ok Verify_ok tc_no_cells (Some 0) w_init =
     Inr (t_disabled, add_log (LogErrorf
         ''Error creating transaction throttler. Transaction throttling will be disabled. Error: ''
         EmptyHealthCheckCells) w_init) \<and>
   logs (snd (projr (NewTxThrottler Unmarshal_ok Verify_ok tc_no_cells (Some 0) w_init))) =
     [LogErrorf
         ''Error creating transaction throttler. Transaction throttling will be disabled. Error: ''
         EmptyHealthCheckCells] \<and>
   Throttle 3 t_disabled w_open = Inr (False, w_open)"
proof -
  have a: "EnableTxThrottler tc_no_cells" and b: "TxThrottlerHealthCheckCells tc_no_cells = []"
    by (simp_all add: tc_no_cells_def tc_enabled_def)
  have t: "tryCreateTxThrottler Unmarshal_ok Verify_ok tc_no_cells (Some 0) = Inl EmptyHealthCheckCells"
    by (simp add: tryCreateTxThrottler_def newTxThrottler_def Unmarshal_ok_def Verify_ok_def a b)
  have l: "logs w_init = []" by (simp add: w_init_def)
  from NewTxThrottler_invalid_config [of tc_no_cells Unmarshal_ok Verify_ok "Some 0" w_init 3 w_open "[]"]
    a b t l
  show ?thesis by (auto simp: t_disabled_def)
qed

subsection \<open>The target\<close>

lemma heap_stores:
  "\<forall>m \<in> set ms. fst m \<noteq> q \<Longrightarrow> heap (stores ms w) q = heap w q"
  by (induction ms arbitrary: w) (simp_all add: store_def)

text \<open>
  C5, as the code has it. \<^verbatim>\<open>InitDBConfig\<close> has no guard: in every state, open or closed,
  it stores in the throttler a clone of the caller's message, at an address of its own,
  leaving the state and every subordinate object alone. Whatever the caller writes
  afterwards through any other pointer, the stored target keeps the fields the message
  had when \<^verbatim>\<open>InitDBConfig\<close> was called.
\<close>

theorem InitDBConfig_clones_in_every_state:
  assumes "p < next_addr w" and "\<forall>m \<in> set ms. fst m \<noteq> next_addr w"
  shows "\<exists>w'. InitDBConfig (Some p) t w = (t\<lparr>target := Some (next_addr w)\<rparr>, w') \<and>
     next_addr w \<noteq> p \<and> heap w' (next_addr w) = heap w p \<and>
     heap (stores ms w') (next_addr w) = heap w p \<and>
     state (t\<lparr>target := Some (next_addr w)\<rparr>) = state t \<and>
     resources w' = resources w \<and> logs w' = logs w"
  using assms
  by (simp add: InitDBConfig_def proto_Clone_def heap_stores resources_def)

theorem InitDBConfig_clones_in_every_state_witness:
  "(0::nat) < next_addr w_init \<and>
   InitDBConfig (Some 0) t_new w_init = (t_closed, w_closed) \<and>
   heap w_closed 1 = caller_target \<and>
   heap (stores [(0, other_target), (0, caller_target\<lparr>Shard := ''0''\<rparr>)] w_closed) 1 = caller_target"
proof -
  have a: "0 < next_addr w_init" and n: "next_addr w_init = 1"
    and h: "heap w_init 0 = caller_target"
    by (simp_all add: w_init_def)
  have b: "\<forall>m \<in> set [(0, other_target), (0, caller_target\<lparr>Shard := ''0''\<rparr>)]. fst m \<noteq> next_addr w_init"
    by (simp add: n)
  from InitDBConfig_clones_in_every_state [OF a b, of t_new] a show ?thesis
    by (simp add: InitDBConfig_t_new n h)
qed

text \<open>
  C5, as the claim has it, fails: \<^verbatim>\<open>InitDBConfig\<close> on the open throttler goes through and
  replaces the target of the running interval by another keyspace and shard.
\<close>

theorem InitDBConfig_accepted_while_open:
  "state t_open = Some ts_open \<and> target t_open = Some 1 \<and> heap w_open 1 = caller_target \<and>
   fst (InitDBConfig (Some 0) t_open (store 0 other_target w_open)) = t_open\<lparr>target := Some 2\<rparr> \<and>
   state (t_open\<lparr>target := Some 2\<rparr>) = Some ts_open \<and>
   heap (snd (InitDBConfig (Some 0) t_open (store 0 other_target w_open))) 2 = other_target \<and>
   other_target \<noteq> caller_target"
  by (simp add: t_open_def t_closed_def w_open_def w_closed_def w_init_def InitDBConfig_def
      proto_Clone_def store_def other_target_def caller_target_def)

subsection \<open>What closing leaves behind\<close>

lemma stop_watchers_frame:
  "contexts (stop_watchers ws w) = contexts w \<and> goroutines (stop_watchers ws w) = goroutines w"
  by (induction ws arbitrary: w) (simp_all add: watcher_Stop_def)

lemma Close_keeps_contexts:
  assumes "Close t w = Inr (t', w')"
  shows "contexts w' = contexts w \<and> goroutines w' = goroutines w"
  using assms
  by (auto simp: Close_def deallocateResources_def Let_def stop_watchers_frame
      healthCheck_Close_def throttler_Close_def add_log_def
      split: if_splits option.splits sum.splits prod.splits)

text \<open>
  C4. \<^verbatim>\<open>Close\<close> on the open throttler stops the watcher and closes the health check and
  the wrapped throttler, but it never calls the cancel function that
  \<^verbatim>\<open>createTxThrottlerHealthCheck\<close> stored in \<^verbatim>\<open>stopHealthCheck\<close>: after \<^verbatim>\<open>Close\<close> has
  returned, the context of the consumer goroutine is not cancelled and the goroutine is
  still live. Calling the cancel function would have ended it.
\<close>

theorem Close_never_cancels_consumer:
  "Open env_ok t_closed w_closed = Inr (None, t_open, w_open) \<and>
   stopHealthCheck ts_open = Some 0 \<and> goroutines w_open = [g_consumer] \<and>
   Close t_open w_open = Inr (t_closed, w_shut) \<and>
   map tw_stopped (watchers w_shut) = [True] \<and> map hc_closed (healthChecks w_shut) = [True] \<and>
   map th_closed (throttlers w_shut) = [True] \<and>
   goroutines w_shut = [g_consumer] \<and> contexts w_shut = [False] \<and>
   task_live w_shut g_consumer \<and> \<not> task_live (context_cancel 0 w_shut) g_consumer"
  by (simp add: Open_t_closed)
    (simp add: Close_def deallocateResources_def t_open_def ts_open_def t_closed_def
      cfg_enabled_def w_shut_def w_open_def watcher_Stop_def healthCheck_Close_def
      throttler_Close_def add_log_def update_at_def g_consumer_def task_live_def
      context_cancel_def)

end
